theory Spec2Isabelle
  imports Main "HOL-Library.AList"
begin

section \<open>Paths\<close>

text \<open>
  \<^verbatim>\<open>batch_engine.py\<close> works with \<^verbatim>\<open>pathlib.Path\<close> values on a POSIX system.
  A path is its root (none, \<^verbatim>\<open>/\<close>, or the special \<^verbatim>\<open>//\<close>) and the list of its
  components; two paths are equal when both agree, as \<^verbatim>\<open>PurePosixPath.__eq__\<close> has it.
\<close>

datatype root = NoRoot | Slash | DoubleSlash

datatype path = Path (anchor: root) (parts: "string list")

definition is_absolute :: "path \<Rightarrow> bool" where
  "is_absolute p = (anchor p \<noteq> NoRoot)"

text \<open>\<^verbatim>\<open>a / b\<close>: an absolute right operand replaces the left one, a relative one is appended.\<close>

definition joinpath :: "path \<Rightarrow> path \<Rightarrow> path" where
  "joinpath a b = (if is_absolute b then b else Path (anchor a) (parts a @ parts b))"

fun split_on :: "char \<Rightarrow> string \<Rightarrow> string list" where
  "split_on c [] = [[]]"
| "split_on c (x # xs) =
     (if x = c then [] # split_on c xs
      else (case split_on c xs of [] \<Rightarrow> [[x]] | p # ps \<Rightarrow> (x # p) # ps))"

text \<open>
  \<^verbatim>\<open>Path(s)\<close> for a string: exactly two leading slashes give the root \<^verbatim>\<open>//\<close>, one or
  more than two give \<^verbatim>\<open>/\<close>; empty components and \<^verbatim>\<open>.\<close> are dropped, \<^verbatim>\<open>..\<close> is kept.
\<close>

definition Path_of_str :: "string \<Rightarrow> path" where
  "Path_of_str s =
     (let n = length (takeWhile (\<lambda>c. c = CHR ''/'') s)
      in Path (if n = 0 then NoRoot else if n = 2 then DoubleSlash else Slash)
              (filter (\<lambda>p. p \<noteq> [] \<and> p \<noteq> ''.'') (split_on CHR ''/'' s)))"

fun join_slash :: "string list \<Rightarrow> string" where
  "join_slash [] = []"
| "join_slash [p] = p"
| "join_slash (p # q # ps) = p @ ''/'' @ join_slash (q # ps)"

text \<open>\<^verbatim>\<open>str(path)\<close>.\<close>

definition str_of_path :: "path \<Rightarrow> string" where
  "str_of_path p =
     (case anchor p of
        NoRoot \<Rightarrow> (if parts p = [] then ''.'' else join_slash (parts p))
      | Slash \<Rightarrow> ''/'' @ join_slash (parts p)
      | DoubleSlash \<Rightarrow> ''//'' @ join_slash (parts p))"

text \<open>The argument type \<^verbatim>\<open>Union[str, Path]\<close> of \<^verbatim>\<open>_resolve_dir\<close>.\<close>

datatype pathlike = PStr string | PPath path

text \<open>\<^verbatim>\<open>dir if isinstance(dir, Path) else Path(dir)\<close>\<close>

definition as_Path :: "pathlike \<Rightarrow> path" where
  "as_Path dir = (case dir of PPath p \<Rightarrow> p | PStr s \<Rightarrow> Path_of_str s)"

section \<open>Values, records and the store\<close>

text \<open>
  A record (\<^verbatim>\<open>one_line_data\<close>, an output) is a Python \<^verbatim>\<open>dict\<close> from field names to
  values: an association list in insertion order, whose keys are distinct in every
  \<^verbatim>\<open>dict\<close> Python can build. A value is a scalar, a \<^verbatim>\<open>list\<close> or a nested \<^verbatim>\<open>dict\<close>;
  \<^verbatim>\<open>PyBlob\<close> is an in-memory media blob (a \<^verbatim>\<open>bytes\<close> object, neither list nor dict).
  Floating point numbers are left out.
\<close>

datatype scalar = PyNone | PyBool bool | PyInt int | PyStr string | PyBlob string

datatype pyval = Scalar scalar | Seq "pyval list" | Dict "(string \<times> pyval) list"

type_synonym pydict = "(string \<times> pyval) list"

text \<open>
  \<^verbatim>\<open>_resolve_image\<close> rewrites the record it is given and \<^verbatim>\<open>_resolve_data\<close> relies on
  that (it drops the returned value), so loaded records live in a store: an address
  is an index into the list of record objects. \<^verbatim>\<open>d[k] = v\<close> is \<^const>\<open>AList.update\<close>:
  the value of a present key is replaced where it stands, an absent key is appended.
\<close>

type_synonym addr = nat

type_synonym heap = "pydict list"

definition alloc :: "pydict list \<Rightarrow> heap \<Rightarrow> addr list \<times> heap" where
  "alloc rs h = ([length h ..< length h + length rs], h @ rs)"

definition deref :: "heap \<Rightarrow> (string \<times> addr list) list \<Rightarrow> (string \<times> pydict list) list" where
  "deref h d = map (\<lambda>(k, addrs). (k, map (\<lambda>a. h ! a) addrs)) d"

section \<open>Errors, files and the collaborators\<close>

datatype error =
    DataSourceError string
  | MappingError string
  | ExecutionError string
  | PersistenceError string

type_synonym filesystem = "path \<rightharpoonup> string"

text \<open>
  The functions \<^verbatim>\<open>batch_engine.py\<close> imports are not part of the sources at hand; they
  are parameters of the model. A Python call both returns a value and may rewrite the
  object it is given, so \<^verbatim>\<open>resolve_image_path\<close> has two readings: the value the call
  returns, and the content of its argument object when the call is over
  (\<open>resolve_image_path_arg\<close>; the identity for a resolver that builds a new value).
  Values are trees: no two fields share a list or dict object, as in records parsed
  from files. \<^verbatim>\<open>load_data\<close> and \<^verbatim>\<open>resolve_image_path\<close> only read the file system, which
  nothing changes before the bulk run, so they are functions of their arguments;
  \<^verbatim>\<open>persist_multimedia_data\<close> and \<^verbatim>\<open>dump_list_to_jsonl\<close> may write files and may
  raise.
\<close>

record utils =
  load_data :: "path \<Rightarrow> error + pydict list"
  resolve_image_path :: "path \<Rightarrow> pyval \<Rightarrow> pyval"
  resolve_image_path_arg :: "path \<Rightarrow> pyval \<Rightarrow> pyval"
  persist_multimedia_data :: "pydict \<Rightarrow> path \<Rightarrow> filesystem \<Rightarrow> (error + pydict) \<times> filesystem"
  dump_list_to_jsonl :: "path \<Rightarrow> pydict list \<Rightarrow> filesystem \<Rightarrow> (error + unit) \<times> filesystem"

text \<open>
  \<^verbatim>\<open>BulkResult\<close>: the outputs and everything else the execution engine reports (the
  declaration is not in the sources; the other fields are the type parameter).
\<close>

record 'm BulkResult =
  outputs :: "pydict list"
  metadata :: 'm

text \<open>\<^verbatim>\<open>FlowExecutor\<close>, as far as \<^verbatim>\<open>BatchEngine\<close> uses it.\<close>

record 'm FlowExecutor =
  working_dir :: path
  validate_and_apply_inputs_mapping ::
    "(string \<times> pydict list) list \<Rightarrow> (string \<times> string) list \<Rightarrow> error + pydict list"
  exec_bulk ::
    "pydict list \<Rightarrow> string option \<Rightarrow> path \<Rightarrow> filesystem \<Rightarrow> (error + 'm BulkResult) \<times> filesystem"

record 'm BatchEngine =
  flow_executor :: "'m FlowExecutor"

text \<open>
  What a call of \<^verbatim>\<open>run\<close> can change outside itself: the files, and the log of the
  calls of \<^verbatim>\<open>exec_bulk\<close> (inputs, run id, output directory).
\<close>

record world =
  files :: filesystem
  exec_calls :: "(pydict list \<times> string option \<times> path) list"

section \<open>\<^verbatim>\<open>BatchEngine\<close>\<close>

definition OUTPUT_FILE_NAME :: string where
  "OUTPUT_FILE_NAME = ''output.jsonl''"

definition resolve_dir :: "'m BatchEngine \<Rightarrow> pathlike \<Rightarrow> path" where
  "resolve_dir self dir =
     (let path = as_Path dir
      in if \<not> is_absolute path then joinpath (working_dir (flow_executor self)) path else path)"

text \<open>
  The loop of \<^verbatim>\<open>_resolve_image\<close> over \<^verbatim>\<open>one_line_data.items()\<close>. In the list branch the
  result of each call is bound to the loop variable \<^verbatim>\<open>item\<close> and the list object
  itself is stored back: what the field holds afterwards is what the calls left in
  the elements. In the dict branch the field gets the returned value.
\<close>

fun resolve_image_items :: "utils \<Rightarrow> path \<Rightarrow> (string \<times> pyval) list \<Rightarrow> pydict \<Rightarrow> pydict" where
  "resolve_image_items U input_dir [] one_line_data = one_line_data"
| "resolve_image_items U input_dir ((key, v) # items) one_line_data =
     resolve_image_items U input_dir items
       (case v of
          Seq elems \<Rightarrow>
            AList.update key (Seq (map (resolve_image_path_arg U input_dir) elems)) one_line_data
        | Dict m \<Rightarrow> AList.update key (resolve_image_path U input_dir (Dict m)) one_line_data
        | Scalar s \<Rightarrow> one_line_data)"

definition resolve_image_dict :: "utils \<Rightarrow> path \<Rightarrow> pydict \<Rightarrow> pydict" where
  "resolve_image_dict U input_dir one_line_data =
     resolve_image_items U input_dir one_line_data one_line_data"

definition resolve_image :: "utils \<Rightarrow> path \<Rightarrow> addr \<Rightarrow> heap \<Rightarrow> addr \<times> heap" where
  "resolve_image U input_dir one_line_data h =
     (if one_line_data < length h
      then (one_line_data, h[one_line_data := resolve_image_dict U input_dir (h ! one_line_data)])
      else (one_line_data, h))"

text \<open>What the loop leaves in one field, by the kind of value the field held.\<close>

definition resolve_field :: "utils \<Rightarrow> path \<Rightarrow> pyval \<Rightarrow> pyval" where
  "resolve_field U input_dir v =
     (case v of
        Seq elems \<Rightarrow> Seq (map (resolve_image_path_arg U input_dir) elems)
      | Dict m \<Rightarrow> resolve_image_path U input_dir (Dict m)
      | Scalar s \<Rightarrow> Scalar s)"

fun resolve_data_items ::
  "'m BatchEngine \<Rightarrow> utils \<Rightarrow> (string \<times> pathlike) list \<Rightarrow> (string \<times> addr list) list \<Rightarrow> heap
   \<Rightarrow> error + ((string \<times> addr list) list \<times> heap)" where
  "resolve_data_items self U [] result h = Inr (result, h)"
| "resolve_data_items self U ((input_key, dir) # rest) result h =
     (let input_dir = resolve_dir self dir
      in case load_data U input_dir of
           Inl e \<Rightarrow> Inl e
         | Inr loaded \<Rightarrow>
             (let (file_data, h1) = alloc loaded h;
                  h2 = fold (\<lambda>each_line s. snd (resolve_image U input_dir each_line s)) file_data h1
              in resolve_data_items self U rest (AList.update input_key file_data result) h2))"

definition resolve_data ::
  "'m BatchEngine \<Rightarrow> utils \<Rightarrow> (string \<times> pathlike) list \<Rightarrow> heap
   \<Rightarrow> error + ((string \<times> addr list) list \<times> heap)" where
  "resolve_data self U input_dirs h = resolve_data_items self U input_dirs [] h"

definition get_input_dicts ::
  "'m BatchEngine \<Rightarrow> utils \<Rightarrow> (string \<times> pathlike) list \<Rightarrow> (string \<times> string) list \<Rightarrow> heap
   \<Rightarrow> error + pydict list" where
  "get_input_dicts self U input_dirs inputs_mapping h =
     (case resolve_data self U input_dirs h of
        Inl e \<Rightarrow> Inl e
      | Inr (input_dicts, h') \<Rightarrow>
          validate_and_apply_inputs_mapping (flow_executor self) (deref h' input_dicts) inputs_mapping)"

text \<open>The list comprehension of \<^verbatim>\<open>_persist_outputs\<close>: one call per output, in order.\<close>

fun persist_each ::
  "utils \<Rightarrow> pydict list \<Rightarrow> path \<Rightarrow> filesystem \<Rightarrow> (error + pydict list) \<times> filesystem" where
  "persist_each U [] output_dir fs = (Inr [], fs)"
| "persist_each U (out # outs) output_dir fs =
     (case persist_multimedia_data U out output_dir fs of
        (Inl e, fs1) \<Rightarrow> (Inl e, fs1)
      | (Inr p, fs1) \<Rightarrow>
          (case persist_each U outs output_dir fs1 of
             (Inl e, fs2) \<Rightarrow> (Inl e, fs2)
           | (Inr ps, fs2) \<Rightarrow> (Inr (p # ps), fs2)))"

definition persist_outputs ::
  "utils \<Rightarrow> pydict list \<Rightarrow> path \<Rightarrow> filesystem \<Rightarrow> (error + pydict list) \<times> filesystem" where
  "persist_outputs U outs output_dir fs =
     (case persist_each U outs output_dir fs of
        (Inl e, fs1) \<Rightarrow> (Inl e, fs1)
      | (Inr persisted, fs1) \<Rightarrow>
          (let output_file = joinpath output_dir (Path_of_str OUTPUT_FILE_NAME)
           in case dump_list_to_jsonl U output_file persisted fs1 of
                (Inl e, fs2) \<Rightarrow> (Inl e, fs2)
              | (Inr u, fs2) \<Rightarrow> (Inr persisted, fs2)))"

text \<open>
  \<^verbatim>\<open>run\<close>. The records a call loads are new objects, so its store starts empty. An
  exception of a collaborator leaves \<^verbatim>\<open>run\<close> at once, with the world as it is then.
\<close>

definition run ::
  "'m BatchEngine \<Rightarrow> utils \<Rightarrow> (string \<times> pathlike) list \<Rightarrow> (string \<times> string) list \<Rightarrow> pathlike
   \<Rightarrow> string option \<Rightarrow> world \<Rightarrow> (error + 'm BulkResult) \<times> world" where
  "run self U input_dirs inputs_mapping output_dir run_id w =
     (case get_input_dicts self U input_dirs inputs_mapping [] of
        Inl e \<Rightarrow> (Inl e, w)
      | Inr input_dicts \<Rightarrow>
          (let out_dir = resolve_dir self output_dir;
               w1 = w\<lparr>exec_calls := exec_calls w @ [(input_dicts, run_id, out_dir)]\<rparr>
           in case exec_bulk (flow_executor self) input_dicts run_id out_dir (files w1) of
                (Inl e, fs1) \<Rightarrow> (Inl e, w1\<lparr>files := fs1\<rparr>)
              | (Inr batch_result, fs1) \<Rightarrow>
                  (case persist_outputs U (outputs batch_result) out_dir fs1 of
                     (Inl e, fs2) \<Rightarrow> (Inl e, w1\<lparr>files := fs2\<rparr>)
                   | (Inr persisted, fs2) \<Rightarrow>
                       (Inr (batch_result\<lparr>outputs := persisted\<rparr>), w1\<lparr>files := fs2\<rparr>))))"

section \<open>Collaborators modelled from the spec, and a small installation\<close>

text \<open>
  Modelled from the spec: \<^verbatim>\<open>resolve_image_path\<close> of \<^verbatim>\<open>promptflow._utils.multimedia_utils\<close>,
  which is not in the sources. The spec: the media-utility contract "accepts
  (base-directory, value) and returns the value with any embedded path pointer made
  absolute"; "only items recognized as media references are rewritten", and the
  collaborator defines the detection. Here a media reference with a path pointer is a
  mapping with one field whose name ends in \<^verbatim>\<open>;path\<close> and whose value is a string.
\<close>

definition is_path_key :: "string \<Rightarrow> bool" where
  "is_path_key k = (drop (length k - 5) k = '';path'')"

fun resolve_path_spec :: "path \<Rightarrow> pyval \<Rightarrow> pyval" where
  "resolve_path_spec base (Dict [(k, Scalar (PyStr p))]) =
     (if is_path_key k
      then Dict [(k, Scalar (PyStr (str_of_path (joinpath base (Path_of_str p)))))]
      else Dict [(k, Scalar (PyStr p))])"
| "resolve_path_spec base v = v"

text \<open>
  Modelled from the spec: \<^verbatim>\<open>dump_list_to_jsonl\<close> of \<^verbatim>\<open>promptflow._utils.utils\<close>, which
  is not in the sources. The spec: "serialize the full sequence as line-delimited
  records into a single fixed-name file under the output directory, one
  JSON-compatible object per line, in output order; the file is fully rewritten (not
  appended) each call", and a file that cannot be written is a Persistence Error.
  \<open>dumps\<close> is \<^verbatim>\<open>json.dumps\<close>; \<open>can_write\<close> says whether a file can be opened for
  writing.
\<close>

definition newline :: char where
  "newline = CHR 0x0A"

definition jsonl :: "(pydict \<Rightarrow> string) \<Rightarrow> pydict list \<Rightarrow> string" where
  "jsonl dumps list_data = concat (map (\<lambda>data. dumps data @ [newline]) list_data)"

definition dump_list_to_jsonl_spec ::
  "(pydict \<Rightarrow> string) \<Rightarrow> (filesystem \<Rightarrow> path \<Rightarrow> bool) \<Rightarrow> path \<Rightarrow> pydict list \<Rightarrow> filesystem
   \<Rightarrow> (error + unit) \<times> filesystem" where
  "dump_list_to_jsonl_spec dumps can_write file_path list_data fs =
     (if can_write fs file_path then (Inr (), fs(file_path \<mapsto> jsonl dumps list_data))
      else (Inl (PersistenceError (str_of_path file_path)), fs))"

text \<open>The lines of a text file: the pieces its newlines end.\<close>

definition lines_of :: "string \<Rightarrow> string list" where
  "lines_of s = butlast (split_on newline s)"

text \<open>
  Modelled from the spec: \<^verbatim>\<open>FlowExecutor.validate_and_apply_inputs_mapping\<close>, which is
  not in the sources. The spec: a mapping value names a source and a field
  (\<^verbatim>\<open>docs.text\<close>); "every mapping target referencing a source name not present in the
  loaded set fails with a Mapping error"; a missing field and record counts that
  differ are Mapping Errors; the output is one merged record per position.
\<close>

definition column :: "(string \<times> pydict list) list \<Rightarrow> string \<Rightarrow> error + pyval list" where
  "column loaded expr =
     (let source = takeWhile (\<lambda>c. c \<noteq> CHR ''.'') expr;
          field = drop 1 (dropWhile (\<lambda>c. c \<noteq> CHR ''.'') expr)
      in case map_of loaded source of
           None \<Rightarrow> Inl (MappingError source)
         | Some rs \<Rightarrow>
             (if list_all (\<lambda>r. map_of r field \<noteq> None) rs
              then Inr (map (\<lambda>r. the (map_of r field)) rs)
              else Inl (MappingError expr)))"

fun columns ::
  "(string \<times> pydict list) list \<Rightarrow> (string \<times> string) list \<Rightarrow> error + (string \<times> pyval list) list" where
  "columns loaded [] = Inr []"
| "columns loaded ((target, expr) # rest) =
     (case column loaded expr of
        Inl e \<Rightarrow> Inl e
      | Inr c \<Rightarrow> (case columns loaded rest of Inl e \<Rightarrow> Inl e | Inr cs \<Rightarrow> Inr ((target, c) # cs)))"

definition apply_inputs_mapping_spec ::
  "(string \<times> pydict list) list \<Rightarrow> (string \<times> string) list \<Rightarrow> error + pydict list" where
  "apply_inputs_mapping_spec loaded inputs_mapping =
     (case columns loaded inputs_mapping of
        Inl e \<Rightarrow> Inl e
      | Inr [] \<Rightarrow> Inr []
      | Inr ((t, c) # cs) \<Rightarrow>
          (if list_all (\<lambda>tc. length (snd tc) = length c) cs
           then Inr (map (\<lambda>i. map (\<lambda>tc. (fst tc, snd tc ! i)) ((t, c) # cs)) [0 ..< length c])
           else Inl (MappingError ''record counts differ'')))"

text \<open>
  Modelled from the spec: \<^verbatim>\<open>persist_multimedia_data\<close> of
  \<^verbatim>\<open>promptflow._utils.multimedia_utils\<close>, which is not in the sources. The spec: "for
  every record, recursively rewrite any embedded media blob into a file under the
  output directory, replacing the in-record value with a durable reference". The file
  of a blob is named after its content here, so two blobs share a file only when they
  are the same blob.
\<close>

fun persist_value :: "path \<Rightarrow> pyval \<Rightarrow> filesystem \<Rightarrow> pyval \<times> filesystem"
  and persist_values :: "path \<Rightarrow> pyval list \<Rightarrow> filesystem \<Rightarrow> pyval list \<times> filesystem"
  and persist_fields :: "path \<Rightarrow> (string \<times> pyval) list \<Rightarrow> filesystem \<Rightarrow> (string \<times> pyval) list \<times> filesystem" where
  "persist_value dir (Scalar s) fs =
     (case s of
        PyBlob b \<Rightarrow>
          (Dict [(''data:image/png;path'', Scalar (PyStr (b @ ''.png'')))],
           fs(joinpath dir (Path NoRoot [b @ ''.png'']) \<mapsto> b))
      | _ \<Rightarrow> (Scalar s, fs))"
| "persist_value dir (Seq xs) fs = (case persist_values dir xs fs of (ys, fs1) \<Rightarrow> (Seq ys, fs1))"
| "persist_value dir (Dict m) fs = (case persist_fields dir m fs of (m1, fs1) \<Rightarrow> (Dict m1, fs1))"
| "persist_values dir [] fs = ([], fs)"
| "persist_values dir (x # xs) fs =
     (case persist_value dir x fs of
        (y, fs1) \<Rightarrow> (case persist_values dir xs fs1 of (ys, fs2) \<Rightarrow> (y # ys, fs2)))"
| "persist_fields dir [] fs = ([], fs)"
| "persist_fields dir ((k, x) # m) fs =
     (case persist_value dir x fs of
        (y, fs1) \<Rightarrow> (case persist_fields dir m fs1 of (m1, fs2) \<Rightarrow> ((k, y) # m1, fs2)))"

definition persist_spec :: "pydict \<Rightarrow> path \<Rightarrow> filesystem \<Rightarrow> (error + pydict) \<times> filesystem" where
  "persist_spec r output_dir fs = (case persist_fields output_dir r fs of (r1, fs1) \<Rightarrow> (Inr r1, fs1))"

text \<open>
  A compact stand-in for \<^verbatim>\<open>json.dumps\<close>: strings are quoted, with the quote, the
  backslash and the newline escaped, so that a record never spans two lines.
\<close>

fun json_escape :: "string \<Rightarrow> string" where
  "json_escape [] = []"
| "json_escape (c # cs) =
     (if c = CHR 0x22 then [CHR 0x5C, CHR 0x22]
      else if c = CHR 0x5C then [CHR 0x5C, CHR 0x5C]
      else if c = CHR 0x0A then [CHR 0x5C, CHR ''n'']
      else [c]) @ json_escape cs"

definition json_string :: "string \<Rightarrow> string" where
  "json_string s = [CHR 0x22] @ json_escape s @ [CHR 0x22]"

fun digits :: "nat \<Rightarrow> string" where
  "digits n = (if n < 10 then [char_of (48 + n)] else digits (n div 10) @ [char_of (48 + n mod 10)])"

fun json_value :: "pyval \<Rightarrow> string"
  and json_values :: "pyval list \<Rightarrow> string"
  and json_fields :: "(string \<times> pyval) list \<Rightarrow> string" where
  "json_value (Scalar s) =
     (case s of
        PyNone \<Rightarrow> ''null''
      | PyBool b \<Rightarrow> (if b then ''true'' else ''false'')
      | PyInt i \<Rightarrow> (if i < 0 then ''-'' @ digits (nat (- i)) else digits (nat i))
      | PyStr t \<Rightarrow> json_string t
      | PyBlob b \<Rightarrow> json_string (''blob:'' @ b))"
| "json_value (Seq xs) = ''['' @ json_values xs @ '']''"
| "json_value (Dict m) = ''{'' @ json_fields m @ ''}''"
| "json_values [] = []"
| "json_values [x] = json_value x"
| "json_values (x # y # xs) = json_value x @ '', '' @ json_values (y # xs)"
| "json_fields [] = []"
| "json_fields [(k, x)] = json_string k @ '': '' @ json_value x"
| "json_fields ((k, x) # f # m) = json_string k @ '': '' @ json_value x @ '', '' @ json_fields (f # m)"

definition json_dumps_demo :: "pydict \<Rightarrow> string" where
  "json_dumps_demo r = ''{'' @ json_fields r @ ''}''"

text \<open>
  A small installation, for running the model: two sources under the working
  directory \<^verbatim>\<open>/work\<close>, and an engine that answers every input record with the record's
  question and a chart (a media blob), reports the run id and the number of records,
  and writes nothing.
\<close>

definition demo_image_record :: pydict where
  "demo_image_record =
     [(''pic'', Dict [(''data:image/png;path'', Scalar (PyStr ''a.png''))]),
      (''thumbs'', Seq [Dict [(''data:image/png;path'', Scalar (PyStr ''t1.png''))]]),
      (''size'', Scalar (PyInt 3))]"

definition demo_load_data :: "path \<Rightarrow> error + pydict list" where
  "demo_load_data p =
     (if p = Path Slash [''work'', ''data'', ''docs'']
      then Inr [[(''text'', Scalar (PyStr ''q1''))], [(''text'', Scalar (PyStr ''q2''))]]
      else if p = Path Slash [''work'', ''data'', ''images'']
      then Inr [demo_image_record,
                [(''pic'', Dict [(''data:image/png;path'', Scalar (PyStr ''b.png''))]),
                 (''thumbs'', Seq []),
                 (''size'', Scalar (PyInt 4))]]
      else Inl (DataSourceError (str_of_path p)))"

definition demo_utils :: utils where
  "demo_utils =
     \<lparr>load_data = demo_load_data,
      resolve_image_path = resolve_path_spec,
      resolve_image_path_arg = (\<lambda>base v. v),
      persist_multimedia_data = persist_spec,
      dump_list_to_jsonl = dump_list_to_jsonl_spec json_dumps_demo (\<lambda>fs p. True)\<rparr>"

text \<open>
  The same installation with a resolver that rewrites the dict it is given and
  returns it: what the call leaves in its argument is what it returns.
\<close>

definition demo_utils_in_place :: utils where
  "demo_utils_in_place = demo_utils\<lparr>resolve_image_path_arg := resolve_path_spec\<rparr>"

definition demo_answer :: "pydict \<Rightarrow> pydict" where
  "demo_answer r =
     (case map_of r ''question'' of
        Some (Scalar (PyStr q)) \<Rightarrow>
          [(''answer'', Scalar (PyStr q)), (''chart'', Scalar (PyBlob (''chart-'' @ q)))]
      | _ \<Rightarrow> [(''answer'', Scalar PyNone)])"

definition demo_exec_bulk ::
  "pydict list \<Rightarrow> string option \<Rightarrow> path \<Rightarrow> filesystem
   \<Rightarrow> (error + (string option \<times> nat) BulkResult) \<times> filesystem" where
  "demo_exec_bulk inputs run_id output_dir fs =
     (Inr \<lparr>outputs = map demo_answer inputs, metadata = (run_id, length inputs)\<rparr>, fs)"

definition demo_engine :: "(string option \<times> nat) BatchEngine" where
  "demo_engine =
     \<lparr>flow_executor =
        \<lparr>working_dir = Path Slash [''work''],
         validate_and_apply_inputs_mapping = apply_inputs_mapping_spec,
         exec_bulk = demo_exec_bulk\<rparr>\<rparr>"

definition demo_input_dirs :: "(string \<times> pathlike) list" where
  "demo_input_dirs = [(''docs'', PStr ''data/docs''), (''images'', PStr ''data/images'')]"

definition demo_inputs_mapping :: "(string \<times> string) list" where
  "demo_inputs_mapping = [(''question'', ''docs.text''), (''photo'', ''images.pic'')]"

text \<open>What \<^verbatim>\<open>_resolve_data\<close> returns there: the addresses per source, and the store.\<close>

definition demo_loaded :: "(string \<times> addr list) list" where
  "demo_loaded = [(''docs'', [0, 1]), (''images'', [2, 3])]"

definition demo_heap :: heap where
  "demo_heap =
     [[(''text'', Scalar (PyStr ''q1''))],
      [(''text'', Scalar (PyStr ''q2''))],
      [(''pic'', Dict [(''data:image/png;path'', Scalar (PyStr ''/work/data/images/a.png''))]),
       (''thumbs'', Seq [Dict [(''data:image/png;path'', Scalar (PyStr ''t1.png''))]]),
       (''size'', Scalar (PyInt 3))],
      [(''pic'', Dict [(''data:image/png;path'', Scalar (PyStr ''/work/data/images/b.png''))]),
       (''thumbs'', Seq []),
       (''size'', Scalar (PyInt 4))]]"

definition demo_out_dir :: path where
  "demo_out_dir = Path Slash [''work'', ''out'']"

definition demo_outputs :: "pydict list" where
  "demo_outputs =
     [[(''answer'', Scalar (PyStr ''q1'')), (''chart'', Scalar (PyBlob ''chart-q1''))],
      [(''answer'', Scalar (PyStr ''q2'')), (''chart'', Scalar (PyBlob ''chart-q2''))]]"

definition demo_persisted :: "pydict list" where
  "demo_persisted =
     [[(''answer'', Scalar (PyStr ''q1'')),
       (''chart'', Dict [(''data:image/png;path'', Scalar (PyStr ''chart-q1.png''))])],
      [(''answer'', Scalar (PyStr ''q2'')),
       (''chart'', Dict [(''data:image/png;path'', Scalar (PyStr ''chart-q2.png''))])]]"

text \<open>The world before the run: an output file of an earlier run is there.\<close>

definition demo_world :: world where
  "demo_world =
     \<lparr>files = [Path Slash [''work'', ''out'', ''output.jsonl''] \<mapsto> ''stale''],
      exec_calls = []\<rparr>"

definition demo_run :: "(error + (string option \<times> nat) BulkResult) \<times> world" where
  "demo_run =
     run demo_engine demo_utils demo_input_dirs demo_inputs_mapping (PStr ''out'') (Some ''r1'')
       demo_world"

section \<open>\<^verbatim>\<open>_resolve_dir\<close>\<close>

text \<open>
  C6. For every path \<open>p\<close>, \<^verbatim>\<open>_resolve_dir\<close> returns \<open>p\<close> (as a \<^verbatim>\<open>Path\<close>) unchanged when
  it is absolute and returns the working directory joined with \<open>p\<close> when it is
  relative; when the working directory is absolute the result is absolute, and
  resolving the result again gives the same path.
\<close>

theorem resolve_dir_absolute_or_joined:
  "(is_absolute (as_Path dir) \<longrightarrow> resolve_dir self dir = as_Path dir) \<and>
   (\<not> is_absolute (as_Path dir) \<longrightarrow>
      resolve_dir self dir = joinpath (working_dir (flow_executor self)) (as_Path dir)) \<and>
   (is_absolute (working_dir (flow_executor self)) \<longrightarrow>
      is_absolute (resolve_dir self dir) \<and>
      resolve_dir self (PPath (resolve_dir self dir)) = resolve_dir self dir)"
  by (simp add: resolve_dir_def as_Path_def joinpath_def is_absolute_def Let_def)

theorem resolve_dir_absolute_or_joined_witness:
  "is_absolute (as_Path (PStr ''/srv/out'')) \<and>
   resolve_dir demo_engine (PStr ''/srv/out'') = Path Slash [''srv'', ''out''] \<and>
   \<not> is_absolute (as_Path (PStr ''data/docs'')) \<and>
   resolve_dir demo_engine (PStr ''data/docs'') = Path Slash [''work'', ''data'', ''docs''] \<and>
   is_absolute (working_dir (flow_executor demo_engine)) \<and>
   is_absolute (resolve_dir demo_engine (PStr ''data/docs'')) \<and>
   resolve_dir demo_engine (PPath (resolve_dir demo_engine (PStr ''data/docs''))) =
     Path Slash [''work'', ''data'', ''docs'']"
proof -
  have a: "is_absolute (as_Path (PStr ''/srv/out''))" by code_simp
  have b: "\<not> is_absolute (as_Path (PStr ''data/docs''))" by code_simp
  have c: "is_absolute (working_dir (flow_executor demo_engine))" by code_simp
  have p: "as_Path (PStr ''/srv/out'') = Path Slash [''srv'', ''out'']" by code_simp
  have q: "joinpath (working_dir (flow_executor demo_engine)) (as_Path (PStr ''data/docs'')) =
           Path Slash [''work'', ''data'', ''docs'']" by code_simp
  note t1 = resolve_dir_absolute_or_joined [of "PStr ''/srv/out''" demo_engine]
  note t2 = resolve_dir_absolute_or_joined [of "PStr ''data/docs''" demo_engine]
  from t1 a p have r1: "resolve_dir demo_engine (PStr ''/srv/out'') = Path Slash [''srv'', ''out'']"
    by simp
  from t2 b q have r2: "resolve_dir demo_engine (PStr ''data/docs'') = Path Slash [''work'', ''data'', ''docs'']"
    by simp
  from t2 c have r3: "is_absolute (resolve_dir demo_engine (PStr ''data/docs''))"
    and r4: "resolve_dir demo_engine (PPath (resolve_dir demo_engine (PStr ''data/docs''))) =
             resolve_dir demo_engine (PStr ''data/docs'')"
    by blast+
  from r4 r2 have r5: "resolve_dir demo_engine (PPath (resolve_dir demo_engine (PStr ''data/docs''))) =
             Path Slash [''work'', ''data'', ''docs'']"
    by (rule trans)
  from a r1 b r2 c r3 r5 show ?thesis by blast
qed

section \<open>\<^verbatim>\<open>_resolve_image\<close>\<close>

text \<open>The loop never changes the list of field names, and a field is looked up as
  the kind of its value says.\<close>

lemma resolve_image_items_keys:
  "set (map fst items) \<subseteq> set (map fst d) \<Longrightarrow>
   map fst (resolve_image_items U dir items d) = map fst d"
proof (induction items arbitrary: d)
  case Nil
  then show ?case by simp
next
  case (Cons kv items)
  obtain k v where kv: "kv = (k, v)" by (cases kv)
  from Cons.prems kv have k: "k \<in> set (map fst d)" and rest: "set (map fst items) \<subseteq> set (map fst d)"
    by auto
  have keep: "map fst (AList.update k x d) = map fst d" for x
    using k by (simp add: update_keys)
  have step: "map fst (resolve_image_items U dir items (AList.update k x d)) = map fst d" for x
    using Cons.IH [of "AList.update k x d"] rest keep [of x] by simp
  show ?case
    using Cons.IH [OF rest] step kv by (cases v) simp_all
qed

lemma resolve_image_items_lookup:
  "distinct (map fst items) \<Longrightarrow>
   map_of (resolve_image_items U dir items d) k =
     (case map_of items k of
        None \<Rightarrow> map_of d k
      | Some (Scalar s) \<Rightarrow> map_of d k
      | Some v \<Rightarrow> Some (resolve_field U dir v))"
proof (induction items arbitrary: d)
  case Nil
  then show ?case by simp
next
  case (Cons kv items)
  obtain k' v where kv: "kv = (k', v)" by (cases kv)
  from Cons.prems kv have dist: "distinct (map fst items)" and fresh: "map_of items k' = None"
    by (auto simp: map_of_eq_None_iff)
  show ?case
  proof (cases "k = k'")
    case True
    then show ?thesis
      using Cons.IH [OF dist] fresh kv
      by (cases v) (simp_all add: update_conv resolve_field_def)
  next
    case False
    then show ?thesis
      using Cons.IH [OF dist] kv
      by (cases v) (simp_all add: update_conv split: option.splits pyval.splits)
  qed
qed

lemma resolve_image_dict_keys: "map fst (resolve_image_dict U dir d) = map fst d"
  by (simp add: resolve_image_dict_def resolve_image_items_keys)

lemma resolve_image_dict_lookup:
  "distinct (map fst d) \<Longrightarrow>
   map_of (resolve_image_dict U dir d) k = map_option (resolve_field U dir) (map_of d k)"
  by (simp add: resolve_image_dict_def resolve_image_items_lookup resolve_field_def
      split: option.splits pyval.splits)

text \<open>For a record with distinct field names the loop is the field-wise rewrite.\<close>

lemma alist_eqI:
  "map fst xs = map fst ys \<Longrightarrow> distinct (map fst xs) \<Longrightarrow> map_of xs = map_of ys \<Longrightarrow> xs = ys"
proof (induction xs arbitrary: ys)
  case Nil
  then show ?case by simp
next
  case (Cons x xs)
  then obtain y ys' where ys: "ys = y # ys'" by (cases ys) auto
  obtain k v where x: "x = (k, v)" by (cases x)
  obtain k' v' where y: "y = (k', v')" by (cases y)
  from Cons.prems(1) ys x y have k: "k' = k" and keys: "map fst xs = map fst ys'"
    by simp_all
  from Cons.prems(2) x have fresh: "k \<notin> fst ` set xs" and dist: "distinct (map fst xs)"
    by simp_all
  from Cons.prems(3) ys x y k have v: "v' = v"
    by (metis fun_upd_same map_of.simps(2) option.inject fst_conv snd_conv)
  have "map_of xs k'' = map_of ys' k''" for k''
  proof (cases "k'' = k")
    case True
    with fresh keys show ?thesis
      by (metis image_set map_of_eq_None_iff)
  next
    case False
    with Cons.prems(3) ys x y k show ?thesis
      by (metis fun_upd_other map_of.simps(2) fst_conv snd_conv)
  qed
  then have "map_of xs = map_of ys'" by (rule ext)
  from Cons.IH [OF keys dist this] ys x y k v show ?case by simp
qed

lemma resolve_image_dict_fieldwise:
  assumes "distinct (map fst d)"
  shows "resolve_image_dict U dir d = map (\<lambda>(k, v). (k, resolve_field U dir v)) d"
proof (rule alist_eqI)
  show "map fst (resolve_image_dict U dir d) = map fst (map (\<lambda>(k, v). (k, resolve_field U dir v)) d)"
    by (simp add: resolve_image_dict_keys case_prod_unfold comp_def)
  show "distinct (map fst (resolve_image_dict U dir d))"
    using assms by (simp add: resolve_image_dict_keys)
  show "map_of (resolve_image_dict U dir d) = map_of (map (\<lambda>(k, v). (k, resolve_field U dir v)) d)"
    using assms by (auto simp: resolve_image_dict_lookup map_of_map)
qed

lemma resolve_image_in_range:
  "a < length h \<Longrightarrow>
   resolve_image U dir a h = (a, h[a := resolve_image_dict U dir (h ! a)])"
  by (simp add: resolve_image_def)

text \<open>
  C9. \<^verbatim>\<open>_resolve_image\<close> returns the very record object it was given (the same
  address), whose field names are the ones it had, in the same order: no field is
  added or removed. No other record of the store is touched.
\<close>

theorem resolve_image_same_record_same_fields:
  "fst (resolve_image U dir a h) = a \<and>
   length (snd (resolve_image U dir a h)) = length h \<and>
   map fst (snd (resolve_image U dir a h) ! a) = map fst (h ! a) \<and>
   (\<forall>b. b \<noteq> a \<longrightarrow> snd (resolve_image U dir a h) ! b = h ! b)"
  by (simp add: resolve_image_def resolve_image_dict_keys)

theorem resolve_image_same_record_same_fields_witness:
  "fst (resolve_image demo_utils (Path Slash [''work'', ''data'', ''images'']) 0
          [demo_image_record, [(''text'', Scalar (PyStr ''q1''))]]) = 0 \<and>
   length (snd (resolve_image demo_utils (Path Slash [''work'', ''data'', ''images'']) 0
          [demo_image_record, [(''text'', Scalar (PyStr ''q1''))]])) = 2 \<and>
   map fst (snd (resolve_image demo_utils (Path Slash [''work'', ''data'', ''images'']) 0
          [demo_image_record, [(''text'', Scalar (PyStr ''q1''))]]) ! 0) =
     [''pic'', ''thumbs'', ''size''] \<and>
   snd (resolve_image demo_utils (Path Slash [''work'', ''data'', ''images'']) 0
          [demo_image_record, [(''text'', Scalar (PyStr ''q1''))]]) ! 1 =
     [(''text'', Scalar (PyStr ''q1''))]"
  using resolve_image_same_record_same_fields
          [of demo_utils "Path Slash [''work'', ''data'', ''images'']" 0
              "[demo_image_record, [(''text'', Scalar (PyStr ''q1''))]]"]
  by (simp add: demo_image_record_def)

text \<open>
  C7. A field of the record whose value is a scalar (neither a list nor a dict) holds
  the same value after \<^verbatim>\<open>_resolve_image\<close>.
\<close>

theorem resolve_image_scalar_unchanged:
  assumes "a < length h"
    and "distinct (map fst (h ! a))"
    and "map_of (h ! a) k = Some (Scalar s)"
  shows "map_of (snd (resolve_image U dir a h) ! a) k = Some (Scalar s)"
  using assms
  by (simp add: resolve_image_in_range resolve_image_dict_lookup resolve_field_def)

theorem resolve_image_scalar_unchanged_witness:
  "0 < length [demo_image_record] \<and>
   distinct (map fst ([demo_image_record] ! 0)) \<and>
   map_of ([demo_image_record] ! 0) ''size'' = Some (Scalar (PyInt 3)) \<and>
   map_of (snd (resolve_image demo_utils (Path Slash [''work'', ''data'', ''images'']) 0
                  [demo_image_record]) ! 0) ''size'' = Some (Scalar (PyInt 3))"
proof -
  have a: "0 < length [demo_image_record]" by simp
  have b: "distinct (map fst ([demo_image_record] ! 0))" by code_simp
  have c: "map_of ([demo_image_record] ! 0) ''size'' = Some (Scalar (PyInt 3))" by code_simp
  from resolve_image_scalar_unchanged [OF a b c] a b c show ?thesis by blast
qed

text \<open>
  A field that holds a dict gets the value the resolver returns. A field that holds a
  list keeps its list object: its elements are what the resolver calls left of them.
\<close>

lemma resolve_image_dict_field:
  assumes "a < length h"
    and "distinct (map fst (h ! a))"
    and "map_of (h ! a) k = Some (Dict m)"
  shows "map_of (snd (resolve_image U dir a h) ! a) k =
         Some (resolve_image_path U dir (Dict m))"
  using assms
  by (simp add: resolve_image_in_range resolve_image_dict_lookup resolve_field_def)

lemma resolve_image_list_field:
  assumes "a < length h"
    and "distinct (map fst (h ! a))"
    and "map_of (h ! a) k = Some (Seq elems)"
  shows "map_of (snd (resolve_image U dir a h) ! a) k =
         Some (Seq (map (resolve_image_path_arg U dir) elems))"
  using assms
  by (simp add: resolve_image_in_range resolve_image_dict_lookup resolve_field_def)

text \<open>
  With a resolver that builds a new value and leaves its argument alone, the list
  field keeps its elements, while the dict field of the same record gets the
  returned value: the list branch rests on the resolver rewriting the dict it is
  given.
\<close>

lemma resolve_image_list_field_of_copying_resolver:
  "map_of (snd (resolve_image demo_utils (Path Slash [''work'', ''data'', ''images'']) 0
                  [demo_image_record]) ! 0) ''thumbs'' =
     Some (Seq [Dict [(''data:image/png;path'', Scalar (PyStr ''t1.png''))]]) \<and>
   map_of (snd (resolve_image demo_utils (Path Slash [''work'', ''data'', ''images'']) 0
                  [demo_image_record]) ! 0) ''pic'' =
     Some (Dict [(''data:image/png;path'', Scalar (PyStr ''/work/data/images/a.png''))])"
  by code_simp

text \<open>
  C2. For a field whose value is a list, \<^verbatim>\<open>_resolve_image\<close> passes every element, one by
  one and in order, to the resolver with the given base directory. When the resolver
  rewrites the element it is given and returns it (what a call leaves in its argument
  is what it returns), the field holds afterwards the list of the resolved elements:
  the same length and order, each element in the form the resolver returns for it.
\<close>

theorem resolve_image_list_field_resolved:
  assumes "a < length h"
    and "distinct (map fst (h ! a))"
    and "map_of (h ! a) k = Some (Seq elems)"
    and "\<forall>x \<in> set elems. resolve_image_path_arg U dir x = resolve_image_path U dir x"
  shows "map_of (snd (resolve_image U dir a h) ! a) k =
         Some (Seq (map (resolve_image_path U dir) elems))"
  using resolve_image_list_field [OF assms(1-3)] assms(4) by simp

theorem resolve_image_list_field_resolved_witness:
  "0 < length [demo_image_record] \<and>
   distinct (map fst ([demo_image_record] ! 0)) \<and>
   map_of ([demo_image_record] ! 0) ''thumbs'' =
     Some (Seq [Dict [(''data:image/png;path'', Scalar (PyStr ''t1.png''))]]) \<and>
   resolve_image_path_arg demo_utils_in_place (Path Slash [''work'', ''data'', ''images''])
       (Dict [(''data:image/png;path'', Scalar (PyStr ''t1.png''))]) =
     resolve_image_path demo_utils_in_place (Path Slash [''work'', ''data'', ''images''])
       (Dict [(''data:image/png;path'', Scalar (PyStr ''t1.png''))]) \<and>
   map_of (snd (resolve_image demo_utils_in_place (Path Slash [''work'', ''data'', ''images'']) 0
                  [demo_image_record]) ! 0) ''thumbs'' =
     Some (Seq [Dict [(''data:image/png;path'', Scalar (PyStr ''/work/data/images/t1.png''))]])"
proof -
  let ?dir = "Path Slash [''work'', ''data'', ''images'']"
  let ?elem = "Dict [(''data:image/png;path'', Scalar (PyStr ''t1.png''))]"
  have a: "0 < length [demo_image_record]" by simp
  have b: "distinct (map fst ([demo_image_record] ! 0))" by code_simp
  have c: "map_of ([demo_image_record] ! 0) ''thumbs'' = Some (Seq [?elem])" by code_simp
  have e: "resolve_image_path_arg demo_utils_in_place ?dir ?elem =
           resolve_image_path demo_utils_in_place ?dir ?elem"
    by (simp add: demo_utils_in_place_def demo_utils_def)
  then have d: "\<forall>x \<in> set [?elem]. resolve_image_path_arg demo_utils_in_place ?dir x =
                  resolve_image_path demo_utils_in_place ?dir x"
    by simp
  have r: "map (resolve_image_path demo_utils_in_place ?dir) [?elem] =
           [Dict [(''data:image/png;path'', Scalar (PyStr ''/work/data/images/t1.png''))]]"
    by code_simp
  from resolve_image_list_field_resolved [OF a b c d]
  have "map_of (snd (resolve_image demo_utils_in_place ?dir 0 [demo_image_record]) ! 0) ''thumbs'' =
        Some (Seq [Dict [(''data:image/png;path'', Scalar (PyStr ''/work/data/images/t1.png''))]])"
    unfolding r .
  with a b c e show ?thesis by blast
qed

section \<open>\<^verbatim>\<open>_resolve_data\<close>\<close>

lemma fold_resolve_image_alloc:
  "fold (\<lambda>a s. snd (resolve_image U dir a s)) [length h ..< length h + length rs] (h @ rs) =
   h @ map (resolve_image_dict U dir) rs"
proof (induction rs arbitrary: h)
  case Nil
  then show ?case by simp
next
  case (Cons r rs)
  let ?F = "\<lambda>a s. snd (resolve_image U dir a s)"
  let ?h1 = "h @ [resolve_image_dict U dir r]"
  have idx: "[length h ..< length h + length (r # rs)] =
             length h # [length ?h1 ..< length ?h1 + length rs]"
  proof -
    have "length h < length h + length (r # rs)" by simp
    then have "[length h ..< length h + length (r # rs)] =
               length h # [Suc (length h) ..< length h + length (r # rs)]"
      by (rule upt_conv_Cons)
    moreover have "Suc (length h) = length ?h1" by simp
    moreover have "length h + length (r # rs) = length ?h1 + length rs" by simp
    ultimately show ?thesis by (simp only:)
  qed
  have first: "?F (length h) (h @ r # rs) = ?h1 @ rs"
    by (simp add: resolve_image_def)
  have "fold ?F [length h ..< length h + length (r # rs)] (h @ r # rs) =
        fold ?F [length ?h1 ..< length ?h1 + length rs] (?h1 @ rs)"
    unfolding idx using first by simp
  also have "\<dots> = ?h1 @ map (resolve_image_dict U dir) rs"
    by (rule Cons.IH)
  finally show ?case by simp
qed

lemma nth_segment:
  "map (\<lambda>a. (h @ ys @ ext) ! a) [length h ..< length h + length ys] = ys"
proof (rule nth_equalityI)
  show "length (map (\<lambda>a. (h @ ys @ ext) ! a) [length h ..< length h + length ys]) = length ys"
    by simp
next
  fix i
  assume "i < length (map (\<lambda>a. (h @ ys @ ext) ! a) [length h ..< length h + length ys])"
  then have "i < length ys" by simp
  then show "map (\<lambda>a. (h @ ys @ ext) ! a) [length h ..< length h + length ys] ! i = ys ! i"
    by (simp add: nth_append)
qed

lemma resolve_data_items_step:
  "load_data U (resolve_dir self dir) = Inr rs \<Longrightarrow>
   resolve_data_items self U ((k, dir) # rest) result h =
   resolve_data_items self U rest
     (AList.update k [length h ..< length h + length rs] result)
     (h @ map (resolve_image_dict U (resolve_dir self dir)) rs)"
  by (simp add: alloc_def fold_resolve_image_alloc Let_def)

lemma resolve_data_items_sound:
  assumes "resolve_data_items self U items result h = Inr (result', h')"
    and "distinct (map fst items)"
  shows "(\<exists>ext. h' = h @ ext) \<and>
         (\<forall>k. k \<notin> set (map fst items) \<longrightarrow> map_of result' k = map_of result k) \<and>
         (\<forall>k dir. (k, dir) \<in> set items \<longrightarrow>
            (\<exists>rs addrs. load_data U (resolve_dir self dir) = Inr rs \<and>
               map_of result' k = Some addrs \<and>
               map (\<lambda>a. h' ! a) addrs = map (resolve_image_dict U (resolve_dir self dir)) rs))"
  using assms
proof (induction items arbitrary: result h)
  case Nil
  then show ?case by simp
next
  case (Cons kd items)
  obtain k dir where kd: "kd = (k, dir)" by (cases kd)
  let ?d = "resolve_dir self dir"
  from Cons.prems(1) kd obtain rs where load: "load_data U ?d = Inr rs"
    by (cases "load_data U ?d") (simp_all add: Let_def)
  let ?addrs = "[length h ..< length h + length rs]"
  let ?new = "map (resolve_image_dict U ?d) rs"
  from Cons.prems(1) kd load
  have rec: "resolve_data_items self U items (AList.update k ?addrs result) (h @ ?new) =
             Inr (result', h')"
    by (simp only: resolve_data_items_step)
  from Cons.prems(2) kd have dist: "distinct (map fst items)" and fresh: "k \<notin> set (map fst items)"
    by simp_all
  from Cons.IH [OF rec dist]
  obtain ext where ext: "h' = (h @ ?new) @ ext"
    and frame: "\<And>k'. k' \<notin> set (map fst items) \<Longrightarrow>
                  map_of result' k' = map_of (AList.update k ?addrs result) k'"
    and rest: "\<And>k' dir'. (k', dir') \<in> set items \<Longrightarrow>
                 \<exists>rs addrs. load_data U (resolve_dir self dir') = Inr rs \<and>
                   map_of result' k' = Some addrs \<and>
                   map (\<lambda>a. h' ! a) addrs = map (resolve_image_dict U (resolve_dir self dir')) rs"
    by blast
  have grows: "\<exists>ext'. h' = h @ ext'"
    using ext by simp
  have untouched: "map_of result' k' = map_of result k'" if "k' \<notin> set (map fst (kd # items))" for k'
    using that frame [of k'] kd by (simp add: update_conv)
  have here: "map_of result' k = Some ?addrs"
    using frame [OF fresh] by (simp add: update_conv)
  have content: "map (\<lambda>a. h' ! a) ?addrs = ?new"
    using nth_segment [of h ?new ext] ext by simp
  have first: "\<exists>rs addrs. load_data U ?d = Inr rs \<and> map_of result' k = Some addrs \<and>
                 map (\<lambda>a. h' ! a) addrs = map (resolve_image_dict U ?d) rs"
    using load here content by blast
  show ?case
    using grows untouched first rest kd by auto
qed

lemma resolve_data_items_returns:
  assumes "\<forall>kd \<in> set items. \<exists>rs. load_data U (resolve_dir self (snd kd)) = Inr rs"
  shows "\<exists>result' h'. resolve_data_items self U items result h = Inr (result', h')"
  using assms
proof (induction items arbitrary: result h)
  case Nil
  then show ?case by simp
next
  case (Cons kd items)
  obtain k dir where kd: "kd = (k, dir)" by (cases kd)
  from Cons.prems kd obtain rs where load: "load_data U (resolve_dir self dir) = Inr rs"
    by auto
  from Cons.prems have "\<forall>kd \<in> set items. \<exists>rs. load_data U (resolve_dir self (snd kd)) = Inr rs"
    by simp
  from Cons.IH [OF this] show ?case
    unfolding kd resolve_data_items_step [OF load] by blast
qed

lemma demo_resolve_data:
  "resolve_data demo_engine demo_utils demo_input_dirs [] = Inr (demo_loaded, demo_heap)"
  by code_simp

text \<open>
  C5. For every source \<open>k\<close> of the input directories, bound to the directory \<open>dir\<close>,
  the records \<^verbatim>\<open>_resolve_data\<close> returns for \<open>k\<close> are the records loaded from the
  resolved directory of \<open>dir\<close>, each one passed through \<^verbatim>\<open>_resolve_image\<close> with that
  same resolved directory as the base. (The output directory is no argument of
  \<^verbatim>\<open>_resolve_data\<close>, and the working directory enters only through \<^verbatim>\<open>_resolve_dir\<close>.)
\<close>

theorem resolve_data_uses_source_dir:
  assumes "distinct (map fst input_dirs)"
    and "resolve_data self U input_dirs h = Inr (result, h')"
    and "(k, dir) \<in> set input_dirs"
  shows "\<exists>rs addrs. load_data U (resolve_dir self dir) = Inr rs \<and>
           map_of result k = Some addrs \<and>
           map (\<lambda>a. h' ! a) addrs = map (resolve_image_dict U (resolve_dir self dir)) rs"
  using resolve_data_items_sound [of self U input_dirs "[]" h result h'] assms
  unfolding resolve_data_def by blast

theorem resolve_data_uses_source_dir_witness:
  "distinct (map fst demo_input_dirs) \<and>
   resolve_data demo_engine demo_utils demo_input_dirs [] = Inr (demo_loaded, demo_heap) \<and>
   (''images'', PStr ''data/images'') \<in> set demo_input_dirs \<and>
   (\<exists>rs addrs.
      load_data demo_utils (resolve_dir demo_engine (PStr ''data/images'')) = Inr rs \<and>
      map_of demo_loaded ''images'' = Some addrs \<and>
      map (\<lambda>a. demo_heap ! a) addrs =
        map (resolve_image_dict demo_utils (resolve_dir demo_engine (PStr ''data/images''))) rs) \<and>
   resolve_dir demo_engine (PStr ''data/images'') = Path Slash [''work'', ''data'', ''images'']"
proof -
  have a: "distinct (map fst demo_input_dirs)" by code_simp
  have c: "(''images'', PStr ''data/images'') \<in> set demo_input_dirs"
    by (simp add: demo_input_dirs_def)
  have d: "resolve_dir demo_engine (PStr ''data/images'') = Path Slash [''work'', ''data'', ''images'']"
    by code_simp
  from resolve_data_uses_source_dir [OF a demo_resolve_data c] a demo_resolve_data c d
  show ?thesis by blast
qed

section \<open>\<^verbatim>\<open>_persist_outputs\<close>\<close>

lemma persist_each_length:
  "persist_each U outs dir fs = (Inr ps, fs') \<Longrightarrow> length ps = length outs"
proof (induction outs arbitrary: ps fs)
  case Nil
  then show ?case by simp
next
  case (Cons out outs)
  then show ?case
    by (auto split: prod.splits sum.splits)
qed

lemma persist_each_prefix:
  "persist_each U outs dir fs = (Inr ps, fs') \<Longrightarrow> i < length outs \<Longrightarrow>
   \<exists>fs_i fs_i'. persist_each U (take i outs) dir fs = (Inr (take i ps), fs_i) \<and>
     persist_multimedia_data U (outs ! i) dir fs_i = (Inr (ps ! i), fs_i')"
proof (induction outs arbitrary: ps fs i)
  case Nil
  then show ?case by simp
next
  case (Cons out outs)
  from Cons.prems(1) obtain p fs1 ps' where
    head: "persist_multimedia_data U out dir fs = (Inr p, fs1)" and
    tail: "persist_each U outs dir fs1 = (Inr ps', fs')" and
    ps: "ps = p # ps'"
    by (auto split: prod.splits sum.splits)
  show ?case
  proof (cases i)
    case 0
    then show ?thesis using head ps by simp
  next
    case (Suc j)
    with Cons.prems(2) have "j < length outs" by simp
    from Cons.IH [OF tail this] obtain fs_j fs_j' where
      "persist_each U (take j outs) dir fs1 = (Inr (take j ps'), fs_j)"
      "persist_multimedia_data U (outs ! j) dir fs_j = (Inr (ps' ! j), fs_j')"
      by blast
    then show ?thesis using head ps Suc by simp
  qed
qed

lemma persist_each_returns:
  assumes "\<forall>r s. \<exists>p s'. persist_multimedia_data U r dir s = (Inr p, s')"
  shows "\<exists>ps fs'. persist_each U outs dir fs = (Inr ps, fs')"
proof (induction outs arbitrary: fs)
  case Nil
  then show ?case by simp
next
  case (Cons out outs)
  from assms obtain p fs1 where "persist_multimedia_data U out dir fs = (Inr p, fs1)" by blast
  moreover from Cons.IH obtain ps fs2 where "persist_each U outs dir fs1 = (Inr ps, fs2)" by blast
  ultimately show ?case by simp
qed

lemma persist_outputs_success:
  assumes "persist_outputs U outs dir fs = (Inr ps, fs')"
  shows "\<exists>fs1. persist_each U outs dir fs = (Inr ps, fs1) \<and>
           dump_list_to_jsonl U (joinpath dir (Path_of_str OUTPUT_FILE_NAME)) ps fs1 = (Inr (), fs')"
  using assms
  by (auto simp: persist_outputs_def Let_def split: prod.splits sum.splits)

text \<open>\<^verbatim>\<open>_persist_outputs\<close> returns whenever neither the persister nor the writer
  raises.\<close>

lemma persist_outputs_returns:
  assumes "\<forall>r s. \<exists>p s'. persist_multimedia_data U r dir s = (Inr p, s')"
    and "\<forall>rs s. \<exists>s'. dump_list_to_jsonl U (joinpath dir (Path_of_str OUTPUT_FILE_NAME)) rs s =
                     (Inr (), s')"
  shows "\<exists>ps fs'. persist_outputs U outs dir fs = (Inr ps, fs')"
proof -
  from persist_each_returns [OF assms(1)] obtain ps fs1 where
    each: "persist_each U outs dir fs = (Inr ps, fs1)" by blast
  from assms(2) obtain fs2 where
    "dump_list_to_jsonl U (joinpath dir (Path_of_str OUTPUT_FILE_NAME)) ps fs1 = (Inr (), fs2)"
    by blast
  with each show ?thesis
    by (simp add: persist_outputs_def Let_def)
qed

lemma split_on_nonempty: "split_on c s \<noteq> []"
  by (induction s) (auto split: list.splits)

lemma split_on_line:
  "c \<notin> set s \<Longrightarrow> split_on c (s @ c # t) = s # split_on c t"
  by (induction s) (auto split: list.splits simp: split_on_nonempty)

lemma lines_of_jsonl:
  assumes "\<forall>r \<in> set ps. newline \<notin> set (dumps r)"
  shows "lines_of (jsonl dumps ps) = map dumps ps"
  using assms
proof (induction ps)
  case Nil
  then show ?case by (simp add: lines_of_def jsonl_def)
next
  case (Cons r ps)
  then have nl: "newline \<notin> set (dumps r)" and
    rest: "butlast (split_on newline (jsonl dumps ps)) = map dumps ps"
    by (simp_all add: lines_of_def)
  have "jsonl dumps (r # ps) = dumps r @ newline # jsonl dumps ps"
    by (simp add: jsonl_def)
  then have "split_on newline (jsonl dumps (r # ps)) = dumps r # split_on newline (jsonl dumps ps)"
    using split_on_line [OF nl] by simp
  then show ?case
    using rest by (simp add: lines_of_def split_on_nonempty)
qed

lemma demo_persist_outputs:
  "fst (persist_outputs demo_utils demo_outputs demo_out_dir (files demo_world)) = Inr demo_persisted"
  by code_simp

lemma demo_persist_outputs_returns:
  "persist_outputs demo_utils demo_outputs demo_out_dir (files demo_world) =
   (Inr demo_persisted, snd (persist_outputs demo_utils demo_outputs demo_out_dir (files demo_world)))"
  using demo_persist_outputs by (simp add: prod_eq_iff)

text \<open>
  C10. When \<^verbatim>\<open>_persist_outputs\<close> returns for \<open>n\<close> output records, it returns \<open>n\<close>
  records, and the \<open>i\<close>-th of them is what \<^verbatim>\<open>persist_multimedia_data\<close> returned for
  the \<open>i\<close>-th output record, called with the output directory in the file system the
  calls for the records before it left behind.
\<close>

theorem persist_outputs_one_per_output:
  assumes "persist_outputs U outs dir fs = (Inr ps, fs')"
  shows "length ps = length outs \<and>
         (\<forall>i<length outs. \<exists>fs_i fs_i'.
            persist_each U (take i outs) dir fs = (Inr (take i ps), fs_i) \<and>
            persist_multimedia_data U (outs ! i) dir fs_i = (Inr (ps ! i), fs_i'))"
proof -
  from persist_outputs_success [OF assms] obtain fs1 where
    each: "persist_each U outs dir fs = (Inr ps, fs1)" by blast
  show ?thesis
    using persist_each_length [OF each] persist_each_prefix [OF each] by blast
qed

theorem persist_outputs_one_per_output_witness:
  "persist_outputs demo_utils demo_outputs demo_out_dir (files demo_world) =
     (Inr demo_persisted, snd (persist_outputs demo_utils demo_outputs demo_out_dir (files demo_world))) \<and>
   length demo_persisted = length demo_outputs \<and>
   length demo_outputs = 2 \<and>
   (\<exists>fs_i fs_i'.
      persist_each demo_utils (take 1 demo_outputs) demo_out_dir (files demo_world) =
        (Inr (take 1 demo_persisted), fs_i) \<and>
      persist_multimedia_data demo_utils (demo_outputs ! 1) demo_out_dir fs_i =
        (Inr (demo_persisted ! 1), fs_i'))"
proof -
  have n: "length demo_outputs = 2" by (simp add: demo_outputs_def)
  then have i: "1 < length demo_outputs" by simp
  from persist_outputs_one_per_output [OF demo_persist_outputs_returns] i
  have "length demo_persisted = length demo_outputs"
    and "\<exists>fs_i fs_i'.
      persist_each demo_utils (take 1 demo_outputs) demo_out_dir (files demo_world) =
        (Inr (take 1 demo_persisted), fs_i) \<and>
      persist_multimedia_data demo_utils (demo_outputs ! 1) demo_out_dir fs_i =
        (Inr (demo_persisted ! 1), fs_i')"
    by blast+
  with demo_persist_outputs_returns n show ?thesis by blast
qed

text \<open>
  C4, as amended. With the writer of the spec: when \<^verbatim>\<open>_persist_outputs\<close> returns for
  the output directory \<open>dir\<close> and the output records \<open>outs\<close>, the only file it
  writes besides those of the persister is \<^verbatim>\<open>dir/output.jsonl\<close>; the file is replaced
  as a whole, by the serialized records, each followed by a newline, and nothing
  else; it has one line per output record, and line \<open>i\<close> is the serialized persisted
  form of record \<open>i\<close> (what \<^verbatim>\<open>persist_multimedia_data\<close> returned for it), not the
  record as it was passed in. A serialized record holds no newline.
\<close>

theorem persist_outputs_file:
  assumes "persist_outputs U outs dir fs = (Inr ps, fs')"
    and "dump_list_to_jsonl U = dump_list_to_jsonl_spec dumps can_write"
    and "\<forall>r \<in> set ps. newline \<notin> set (dumps r)"
  shows "\<exists>fs1.
           persist_each U outs dir fs = (Inr ps, fs1) \<and>
           fs' = fs1(joinpath dir (Path NoRoot [''output.jsonl'']) \<mapsto> jsonl dumps ps) \<and>
           lines_of (jsonl dumps ps) = map dumps ps \<and>
           length ps = length outs \<and>
           (\<forall>i<length outs. \<exists>fs_i fs_i'.
              persist_each U (take i outs) dir fs = (Inr (take i ps), fs_i) \<and>
              persist_multimedia_data U (outs ! i) dir fs_i = (Inr (ps ! i), fs_i'))"
proof -
  have name: "Path_of_str OUTPUT_FILE_NAME = Path NoRoot [''output.jsonl'']"
    by (simp add: OUTPUT_FILE_NAME_def Path_of_str_def)
  from persist_outputs_success [OF assms(1)] obtain fs1 where
    each: "persist_each U outs dir fs = (Inr ps, fs1)" and
    dump: "dump_list_to_jsonl_spec dumps can_write (joinpath dir (Path NoRoot [''output.jsonl'']))
             ps fs1 = (Inr (), fs')"
    unfolding name assms(2) by blast
  from dump have after: "fs' = fs1(joinpath dir (Path NoRoot [''output.jsonl'']) \<mapsto> jsonl dumps ps)"
    by (simp add: dump_list_to_jsonl_spec_def split: if_splits)
  show ?thesis
    using each after lines_of_jsonl [OF assms(3)]
      persist_each_length [OF each] persist_each_prefix [OF each]
    by blast
qed

theorem persist_outputs_file_witness:
  "persist_outputs demo_utils demo_outputs demo_out_dir (files demo_world) =
     (Inr demo_persisted, snd (persist_outputs demo_utils demo_outputs demo_out_dir (files demo_world))) \<and>
   dump_list_to_jsonl demo_utils = dump_list_to_jsonl_spec json_dumps_demo (\<lambda>fs p. True) \<and>
   newline \<notin> set (json_dumps_demo (demo_persisted ! 0)) \<and>
   newline \<notin> set (json_dumps_demo (demo_persisted ! 1)) \<and>
   files demo_world (joinpath demo_out_dir (Path NoRoot [''output.jsonl''])) = Some ''stale'' \<and>
   (\<exists>fs1.
      persist_each demo_utils demo_outputs demo_out_dir (files demo_world) = (Inr demo_persisted, fs1) \<and>
      snd (persist_outputs demo_utils demo_outputs demo_out_dir (files demo_world)) =
        fs1(joinpath demo_out_dir (Path NoRoot [''output.jsonl'']) \<mapsto>
              jsonl json_dumps_demo demo_persisted) \<and>
      lines_of (jsonl json_dumps_demo demo_persisted) = map json_dumps_demo demo_persisted \<and>
      length demo_persisted = length demo_outputs)"
proof -
  have w: "dump_list_to_jsonl demo_utils = dump_list_to_jsonl_spec json_dumps_demo (\<lambda>fs p. True)"
    by (simp add: demo_utils_def)
  have a: "newline \<notin> set (json_dumps_demo (demo_persisted ! 0))" by code_simp
  have b: "newline \<notin> set (json_dumps_demo (demo_persisted ! 1))" by code_simp
  have "set demo_persisted = {demo_persisted ! 0, demo_persisted ! 1}"
    by (simp add: demo_persisted_def)
  with a b have all: "\<forall>r \<in> set demo_persisted. newline \<notin> set (json_dumps_demo r)"
    by simp
  have old: "files demo_world (joinpath demo_out_dir (Path NoRoot [''output.jsonl''])) = Some ''stale''"
    by code_simp
  from persist_outputs_file [OF demo_persist_outputs_returns w all]
  have "\<exists>fs1.
      persist_each demo_utils demo_outputs demo_out_dir (files demo_world) = (Inr demo_persisted, fs1) \<and>
      snd (persist_outputs demo_utils demo_outputs demo_out_dir (files demo_world)) =
        fs1(joinpath demo_out_dir (Path NoRoot [''output.jsonl'']) \<mapsto>
              jsonl json_dumps_demo demo_persisted) \<and>
      lines_of (jsonl json_dumps_demo demo_persisted) = map json_dumps_demo demo_persisted \<and>
      length demo_persisted = length demo_outputs"
    by blast
  with demo_persist_outputs_returns w a b old show ?thesis by blast
qed

text \<open>
  C4 as stated fails: for an output record with a media blob, line 0 of the file is
  not the serialized record that was passed in.
\<close>

theorem persist_outputs_lines_are_not_the_inputs:
  "fst (persist_outputs demo_utils demo_outputs demo_out_dir Map.empty) = Inr demo_persisted \<and>
   lines_of (the (snd (persist_outputs demo_utils demo_outputs demo_out_dir Map.empty)
                    (joinpath demo_out_dir (Path_of_str ''output.jsonl'')))) ! 0 \<noteq>
     json_dumps_demo (demo_outputs ! 0)"
  by code_simp

section \<open>\<^verbatim>\<open>run\<close>\<close>

lemma run_success:
  assumes "run self U input_dirs inputs_mapping output_dir run_id w = (Inr result, w')"
  shows "\<exists>input_dicts batch_result fs1.
           get_input_dicts self U input_dirs inputs_mapping [] = Inr input_dicts \<and>
           exec_bulk (flow_executor self) input_dicts run_id (resolve_dir self output_dir) (files w) =
             (Inr batch_result, fs1) \<and>
           persist_outputs U (outputs batch_result) (resolve_dir self output_dir) fs1 =
             (Inr (outputs result), files w') \<and>
           result = batch_result\<lparr>outputs := outputs result\<rparr> \<and>
           exec_calls w' = exec_calls w @ [(input_dicts, run_id, resolve_dir self output_dir)]"
  using assms
  by (auto simp: run_def Let_def split: sum.splits prod.splits)

lemma run_input_error:
  "get_input_dicts self U input_dirs inputs_mapping [] = Inl e \<Longrightarrow>
   run self U input_dirs inputs_mapping output_dir run_id w = (Inl e, w)"
  by (simp add: run_def)

lemma demo_run_result:
  "fst demo_run = Inr \<lparr>outputs = demo_persisted, metadata = (Some ''r1'', 2)\<rparr>"
  by code_simp

lemma demo_run_returns:
  "run demo_engine demo_utils demo_input_dirs demo_inputs_mapping (PStr ''out'') (Some ''r1'')
     demo_world =
   (Inr \<lparr>outputs = demo_persisted, metadata = (Some ''r1'', 2)\<rparr>, snd demo_run)"
  using demo_run_result unfolding demo_run_def by (simp add: prod_eq_iff)

lemma demo_output_file:
  "joinpath (resolve_dir demo_engine (PStr ''out'')) (Path_of_str OUTPUT_FILE_NAME) =
   Path Slash [''work'', ''out'', ''output.jsonl'']"
  by code_simp

text \<open>
  C3. When the records are loaded and the input mapping raises an error, \<^verbatim>\<open>run\<close>
  raises that error and leaves the world as it was: \<^verbatim>\<open>exec_bulk\<close> is not called and
  no file is created or changed.
\<close>

theorem run_mapping_error_before_execution:
  assumes "resolve_data self U input_dirs [] = Inr (loaded, h)"
    and "validate_and_apply_inputs_mapping (flow_executor self) (deref h loaded) inputs_mapping = Inl e"
  shows "run self U input_dirs inputs_mapping output_dir run_id w = (Inl e, w) \<and>
         exec_calls (snd (run self U input_dirs inputs_mapping output_dir run_id w)) = exec_calls w \<and>
         files (snd (run self U input_dirs inputs_mapping output_dir run_id w)) = files w"
  using assms by (simp add: run_def get_input_dicts_def)

theorem run_mapping_error_before_execution_witness:
  "resolve_data demo_engine demo_utils demo_input_dirs [] = Inr (demo_loaded, demo_heap) \<and>
   validate_and_apply_inputs_mapping (flow_executor demo_engine) (deref demo_heap demo_loaded)
       [(''question'', ''missing_source.text'')] = Inl (MappingError ''missing_source'') \<and>
   run demo_engine demo_utils demo_input_dirs [(''question'', ''missing_source.text'')]
       (PStr ''out'') (Some ''r1'') demo_world = (Inl (MappingError ''missing_source''), demo_world) \<and>
   exec_calls (snd (run demo_engine demo_utils demo_input_dirs [(''question'', ''missing_source.text'')]
       (PStr ''out'') (Some ''r1'') demo_world)) = [] \<and>
   files (snd (run demo_engine demo_utils demo_input_dirs [(''question'', ''missing_source.text'')]
       (PStr ''out'') (Some ''r1'') demo_world)) (Path Slash [''work'', ''out'', ''output.jsonl'']) =
     Some ''stale''"
proof -
  have b: "validate_and_apply_inputs_mapping (flow_executor demo_engine) (deref demo_heap demo_loaded)
             [(''question'', ''missing_source.text'')] = Inl (MappingError ''missing_source'')"
    by code_simp
  note t = run_mapping_error_before_execution [OF demo_resolve_data b, of "PStr ''out''" "Some ''r1''" demo_world]
  from t have r: "run demo_engine demo_utils demo_input_dirs [(''question'', ''missing_source.text'')]
       (PStr ''out'') (Some ''r1'') demo_world = (Inl (MappingError ''missing_source''), demo_world)"
    by blast
  from t have "exec_calls (snd (run demo_engine demo_utils demo_input_dirs [(''question'', ''missing_source.text'')]
       (PStr ''out'') (Some ''r1'') demo_world)) = []"
    by (simp add: demo_world_def)
  moreover from t have "files (snd (run demo_engine demo_utils demo_input_dirs [(''question'', ''missing_source.text'')]
       (PStr ''out'') (Some ''r1'') demo_world)) (Path Slash [''work'', ''out'', ''output.jsonl'']) =
     Some ''stale''"
    by (simp add: demo_world_def)
  ultimately show ?thesis using demo_resolve_data b r by blast
qed

text \<open>
  C8. The result of a successful \<^verbatim>\<open>run\<close> is the \<^verbatim>\<open>BulkResult\<close> the execution engine
  returned with its outputs replaced by what \<^verbatim>\<open>_persist_outputs\<close> returned for them;
  every other field is as the engine produced it.
\<close>

theorem run_replaces_outputs_only:
  assumes "run self U input_dirs inputs_mapping output_dir run_id w = (Inr result, w')"
  shows "\<exists>input_dicts batch_result fs1.
           get_input_dicts self U input_dirs inputs_mapping [] = Inr input_dicts \<and>
           exec_bulk (flow_executor self) input_dicts run_id (resolve_dir self output_dir) (files w) =
             (Inr batch_result, fs1) \<and>
           persist_outputs U (outputs batch_result) (resolve_dir self output_dir) fs1 =
             (Inr (outputs result), files w') \<and>
           result = batch_result\<lparr>outputs := outputs result\<rparr> \<and>
           metadata result = metadata batch_result \<and>
           BulkResult.more result = BulkResult.more batch_result"
proof -
  from run_success [OF assms] obtain input_dicts batch_result fs1 where
    a: "get_input_dicts self U input_dirs inputs_mapping [] = Inr input_dicts" and
    b: "exec_bulk (flow_executor self) input_dicts run_id (resolve_dir self output_dir) (files w) =
          (Inr batch_result, fs1)" and
    c: "persist_outputs U (outputs batch_result) (resolve_dir self output_dir) fs1 =
          (Inr (outputs result), files w')" and
    d: "result = batch_result\<lparr>outputs := outputs result\<rparr>"
    by blast
  from d have "metadata result = metadata batch_result"
    and "BulkResult.more result = BulkResult.more batch_result"
    by (metis BulkResult.select_convs BulkResult.surjective BulkResult.update_convs(1))+
  with a b c d show ?thesis by blast
qed

theorem run_replaces_outputs_only_witness:
  "run demo_engine demo_utils demo_input_dirs demo_inputs_mapping (PStr ''out'') (Some ''r1'')
     demo_world =
   (Inr \<lparr>outputs = demo_persisted, metadata = (Some ''r1'', 2)\<rparr>, snd demo_run) \<and>
   (\<exists>input_dicts batch_result fs1.
      get_input_dicts demo_engine demo_utils demo_input_dirs demo_inputs_mapping [] = Inr input_dicts \<and>
      exec_bulk (flow_executor demo_engine) input_dicts (Some ''r1'')
          (resolve_dir demo_engine (PStr ''out'')) (files demo_world) = (Inr batch_result, fs1) \<and>
      persist_outputs demo_utils (outputs batch_result) (resolve_dir demo_engine (PStr ''out'')) fs1 =
        (Inr demo_persisted, files (snd demo_run)) \<and>
      \<lparr>outputs = demo_persisted, metadata = (Some ''r1'', 2)\<rparr> =
        batch_result\<lparr>outputs := demo_persisted\<rparr> \<and>
      metadata batch_result = (Some ''r1'', 2))"
proof -
  from run_replaces_outputs_only [OF demo_run_returns]
  obtain input_dicts batch_result fs1 where
    "get_input_dicts demo_engine demo_utils demo_input_dirs demo_inputs_mapping [] = Inr input_dicts"
    "exec_bulk (flow_executor demo_engine) input_dicts (Some ''r1'')
          (resolve_dir demo_engine (PStr ''out'')) (files demo_world) = (Inr batch_result, fs1)"
    "persist_outputs demo_utils (outputs batch_result) (resolve_dir demo_engine (PStr ''out'')) fs1 =
        (Inr demo_persisted, files (snd demo_run))"
    "\<lparr>outputs = demo_persisted, metadata = (Some ''r1'', 2)\<rparr> =
        batch_result\<lparr>outputs := demo_persisted\<rparr>"
    "metadata batch_result = (Some ''r1'', 2)"
    by auto
  with demo_run_returns show ?thesis by blast
qed

text \<open>
  C1. After a successful \<^verbatim>\<open>run\<close>, the files are as the writer left them when it
  was called, and returned, with the output file of the resolved output directory
  and exactly the list that is the \<^verbatim>\<open>outputs\<close> of the returned \<^verbatim>\<open>BulkResult\<close>: what
  was written is what is returned, record by record and in the same order.
\<close>

theorem run_outputs_are_the_file:
  assumes "run self U input_dirs inputs_mapping output_dir run_id w = (Inr result, w')"
  shows "\<exists>fs1. dump_list_to_jsonl U
                 (joinpath (resolve_dir self output_dir) (Path_of_str OUTPUT_FILE_NAME))
                 (outputs result) fs1 = (Inr (), files w')"
proof -
  from run_success [OF assms] obtain input_dicts batch_result fs1 where
    "exec_bulk (flow_executor self) input_dicts run_id (resolve_dir self output_dir) (files w) =
       (Inr batch_result, fs1)" and
    "persist_outputs U (outputs batch_result) (resolve_dir self output_dir) fs1 =
       (Inr (outputs result), files w')"
    by blast
  from persist_outputs_success [OF this(2)] show ?thesis by blast
qed

theorem run_outputs_are_the_file_witness:
  "run demo_engine demo_utils demo_input_dirs demo_inputs_mapping (PStr ''out'') (Some ''r1'')
     demo_world =
   (Inr \<lparr>outputs = demo_persisted, metadata = (Some ''r1'', 2)\<rparr>, snd demo_run) \<and>
   (\<exists>fs1. dump_list_to_jsonl demo_utils (Path Slash [''work'', ''out'', ''output.jsonl''])
            demo_persisted fs1 = (Inr (), files (snd demo_run))) \<and>
   files (snd demo_run) (Path Slash [''work'', ''out'', ''output.jsonl'']) =
     Some (jsonl json_dumps_demo demo_persisted) \<and>
   files demo_world (Path Slash [''work'', ''out'', ''output.jsonl'']) = Some ''stale''"
proof -
  from run_outputs_are_the_file [OF demo_run_returns]
  obtain fs1 where written:
    "dump_list_to_jsonl demo_utils (Path Slash [''work'', ''out'', ''output.jsonl''])
       demo_persisted fs1 = (Inr (), files (snd demo_run))"
    unfolding demo_output_file by auto
  then have "files (snd demo_run) =
             fs1(Path Slash [''work'', ''out'', ''output.jsonl''] \<mapsto>
                   jsonl json_dumps_demo demo_persisted)"
    by (simp add: demo_utils_def dump_list_to_jsonl_spec_def)
  then have "files (snd demo_run) (Path Slash [''work'', ''out'', ''output.jsonl'']) =
             Some (jsonl json_dumps_demo demo_persisted)"
    by simp
  moreover have "files demo_world (Path Slash [''work'', ''out'', ''output.jsonl'']) = Some ''stale''"
    by (simp add: demo_world_def)
  ultimately show ?thesis using demo_run_returns written by blast
qed

end
